theory Spec2Isabelle
  imports Main "HOL-Library.AList" "HOL-Library.Sublist"
begin

section \<open>Values and errors\<close>

text \<open>
  The decoded body of a response is what \<^verbatim>\<open>response.json()\<close> returns: Python values
  built from JSON. A dict is an association list in insertion order; a Python dict has
  no two entries with one key, which \<open>wf_dict\<close> below states. Numbers are integers:
  the pipeline never looks inside a value other than to ask whether it is a dict.
\<close>

datatype pyval =
    PNone
  | PBool bool
  | PInt int
  | PStr string
  | PList "pyval list"
  | PDict "(string \<times> pyval) list"

type_synonym pydict = "(string \<times> pyval) list"

text \<open>An article record, and a page of them (one API response).\<close>

type_synonym article = pydict
type_synonym page = "article list"

fun is_dict :: "pyval \<Rightarrow> bool" where
  "is_dict (PDict kvs) = True"
| "is_dict v = False"


text \<open>
  The exceptions the run can raise, under their Python names. The specification calls
  them \<open>NetworkError\<close> (\<open>httpx.TransportError\<close>), \<open>HttpError\<close>
  (\<open>httpx.HTTPStatusError\<close>, which holds the response and so its status code),
  \<open>DecodeError\<close> (\<open>JSONDecodeError\<close>), \<open>MissingFieldError\<close> (the \<open>KeyError\<close> of
  the column selection, which names the columns not found) and \<open>IoError\<close>
  (\<open>OSError\<close>).
\<close>

datatype error =
    TransportError
  | HTTPStatusError nat
  | JSONDecodeError
  | KeyError "string list"
  | OSError

section \<open>The Transformer: \<open>to_dataframe\<close>\<close>

subsection \<open>\<open>pandas.json_normalize\<close>\<close>

text \<open>
  \<^verbatim>\<open>pd.json_normalize(records)\<close> with no further argument flattens each record with
  \<^verbatim>\<open>_normalise_json_ordered\<close> (separator \<open>.\<close>) and builds a frame from the flat dicts:
  \<^verbatim>\<open>
  def _normalise_json(data, key_string, normalized_dict, separator):
      if isinstance(data, dict):
          for key, value in data.items():
              new_key = f"{key_string}{separator}{key}"
              if not key_string:
                  new_key = new_key.removeprefix(separator)
              _normalise_json(value, new_key, normalized_dict, separator)
      else:
          normalized_dict[key_string] = data
      return normalized_dict

  def _normalise_json_ordered(data, separator):
      top_dict_ = {k: v for k, v in data.items() if not isinstance(v, dict)}
      nested_dict_ = _normalise_json(
          {k: v for k, v in data.items() if isinstance(v, dict)}, "", {}, separator)
      return {**top_dict_, **nested_dict_}
  \<close>
\<close>

definition removeprefix :: "string \<Rightarrow> string \<Rightarrow> string" where
  "removeprefix s pre = (if prefix pre s then drop (length pre) s else s)"

definition new_key :: "string \<Rightarrow> string \<Rightarrow> string \<Rightarrow> string" where
  "new_key key_string separator key =
     (let k = key_string @ separator @ key
      in if key_string = [] then removeprefix k separator else k)"

fun normalise_json :: "pyval \<Rightarrow> string \<Rightarrow> pydict \<Rightarrow> string \<Rightarrow> pydict" where
  "normalise_json (PDict kvs) key_string normalized_dict separator =
     fold (\<lambda>kv nd. normalise_json (snd kv) (new_key key_string separator (fst kv)) nd separator)
       kvs normalized_dict"
| "normalise_json data key_string normalized_dict separator =
     AList.update key_string data normalized_dict"

definition normalise_json_ordered :: "pydict \<Rightarrow> string \<Rightarrow> pydict" where
  "normalise_json_ordered data separator =
     (let top_dict = filter (\<lambda>kv. \<not> is_dict (snd kv)) data;
          nested_dict = normalise_json (PDict (filter (\<lambda>kv. is_dict (snd kv)) data)) [] [] separator
      in fold (\<lambda>kv d. AList.update (fst kv) (snd kv) d) nested_dict top_dict)"

text \<open>
  A frame has named columns and rows of cells; a cell is \<open>None\<close> where pandas puts
  \<open>NaN\<close>, for a column the record does not have. Cells hold the decoded values
  themselves: the number representation pandas picks for a column is not modelled.
\<close>

type_synonym cell = "pyval option"

record dataframe =
  columns :: "string list"
  rows :: "cell list list"

text \<open>The columns of \<^verbatim>\<open>DataFrame(list_of_dicts)\<close>: every key, in order of first appearance.\<close>

definition unique_keys :: "pydict list \<Rightarrow> string list" where
  "unique_keys ds =
     fold (\<lambda>k seen. if k \<in> set seen then seen else seen @ [k]) (concat (map (map fst) ds)) []"

definition DataFrame :: "pydict list \<Rightarrow> dataframe" where
  "DataFrame ds =
     (let cols = unique_keys ds
      in \<lparr>columns = cols, rows = map (\<lambda>d. map (map_of d) cols) ds\<rparr>)"

definition json_normalize :: "article list \<Rightarrow> dataframe" where
  "json_normalize data = DataFrame (map (\<lambda>row. normalise_json_ordered row ''.'') data)"

subsection \<open>Column selection \<open>df[[...]]\<close>\<close>

text \<open>
  Selecting a list of columns raises \<open>KeyError\<close> when one of them is not a column of
  the frame, and otherwise keeps every row, cut down to those columns in the order asked.
\<close>

definition cell_at :: "dataframe \<Rightarrow> cell list \<Rightarrow> string \<Rightarrow> cell" where
  "cell_at df row key = (case map_of (zip (columns df) row) key of Some c \<Rightarrow> c | None \<Rightarrow> None)"

definition getitem :: "dataframe \<Rightarrow> string list \<Rightarrow> error + dataframe" where
  "getitem df keys =
     (let missing = filter (\<lambda>k. k \<notin> set (columns df)) keys
      in if missing \<noteq> [] then Inl (KeyError missing)
         else Inr \<lparr>columns = keys, rows = map (\<lambda>row. map (cell_at df row) keys) (rows df)\<rparr>)"

subsection \<open>The body of \<open>to_dataframe\<close>\<close>

definition selected_fields :: "string list" where
  "selected_fields =
     [''id'', ''title'', ''published_at'', ''url'', ''comments_count'',
      ''positive_reactions_count'', ''tag_list'', ''user.username'']"

definition to_dataframe_fn :: "page list \<Rightarrow> error + dataframe" where
  "to_dataframe_fn raw_articles =
     (let records = concat raw_articles;
          df = getitem (json_normalize records) selected_fields
      in df)"

text \<open>
  The flat dict of one record, the row it gives under the selected columns, and what it
  is for a record to lack a column.
\<close>

definition flat :: "article \<Rightarrow> pydict" where
  "flat r = normalise_json_ordered r ''.''"

definition row_of :: "article \<Rightarrow> cell list" where
  "row_of r = map (map_of (flat r)) selected_fields"

definition lacks :: "article \<Rightarrow> string \<Rightarrow> bool" where
  "lacks r c = (c \<notin> fst ` set (flat r))"

section \<open>The outside world\<close>

text \<open>
  What the run does to the world is kept in a record: the requests sent (one per
  attempt), the delays waited before retries, the lines printed, the files on disk and
  the task runs started. What the source does not fix is a parameter: the outcome of the
  \<open>n\<close>-th request sent, whether a path can be opened for writing, the platform's line
  separator (\<^verbatim>\<open>os.linesep\<close>), and the text pandas writes for a value that is neither
  null nor a string, which depends on the dtype of its column (\<open>text_of column value\<close>).
\<close>

record request =
  url :: string
  params :: "(string \<times> int) list"
  timeout :: nat

datatype body = Malformed | Json_array page

datatype http_outcome = No_response | Response nat body

datatype log_line = Fetching_page int | Saved nat string dataframe

datatype task_call = Fetch_page int string int | To_dataframe | Save_csv string

record world =
  requests :: "request list"
  sleeps :: "nat list"
  stdout :: "log_line list"
  files :: "string \<rightharpoonup> string"
  task_runs :: "task_call list"

record env =
  http_get :: "nat \<Rightarrow> request \<Rightarrow> http_outcome"
  can_write :: "string \<Rightarrow> bool"
  linesep :: string
  text_of :: "cell list \<Rightarrow> pyval \<Rightarrow> string"

type_synonym 'a result = "error + 'a"

section \<open>The Fetcher: \<open>fetch_page\<close>\<close>

text \<open>\<^verbatim>\<open>response.raise_for_status()\<close> raises unless the status code is 2xx.\<close>

definition is_success :: "nat \<Rightarrow> bool" where
  "is_success status_code = (200 \<le> status_code \<and> status_code \<le> 299)"

text \<open>
  What the three statements after the request make of its outcome: \<^verbatim>\<open>httpx.get\<close>
  raises when no response arrives, \<^verbatim>\<open>raise_for_status\<close> raises on a status code
  that is not 2xx, and \<^verbatim>\<open>response.json()\<close> raises on a body that is not JSON.
\<close>

fun result_of :: "http_outcome \<Rightarrow> page result" where
  "result_of No_response = Inl TransportError"
| "result_of (Response status_code content) =
     (if \<not> is_success status_code then Inl (HTTPStatusError status_code)
      else (case content of
              Malformed \<Rightarrow> Inl JSONDecodeError
            | Json_array articles \<Rightarrow> Inr articles))"

text \<open>One attempt: the function under the decorator (\<^verbatim>\<open>fetch_page.fn\<close>).\<close>

definition get_request :: "int \<Rightarrow> string \<Rightarrow> int \<Rightarrow> request" where
  "get_request page api_base per_page =
     \<lparr>url = api_base @ ''/articles'',
      params = [(''page'', page), (''per_page'', per_page)],
      timeout = 30\<rparr>"

definition fetch_page_fn :: "env \<Rightarrow> int \<Rightarrow> string \<Rightarrow> int \<Rightarrow> world \<Rightarrow> page result \<times> world" where
  "fetch_page_fn e page api_base per_page w =
     (let w1 = w\<lparr>stdout := stdout w @ [Fetching_page page]\<rparr>;
          request = get_request page api_base per_page;
          w2 = w1\<lparr>requests := requests w1 @ [request]\<rparr>
      in (result_of (http_get e (length (requests w1)) request), w2))"

subsection \<open>The task decorator\<close>

text \<open>
  \<^verbatim>\<open>@task(retries=n, retry_delay_seconds=ds)\<close> runs the function, and while it raises
  (any exception: no \<^verbatim>\<open>retry_condition_fn\<close> is given) and retries are left, waits and
  runs it again; before retry number \<open>k\<close> (from 0) it waits
  \<^verbatim>\<open>ds[min(k, len(ds) - 1)]\<close> seconds. The exception of the last run propagates. A bare
  \<^verbatim>\<open>@task\<close> has no retries.
\<close>

definition retry_delay :: "nat list \<Rightarrow> nat \<Rightarrow> nat" where
  "retry_delay retry_delay_seconds k =
     (if retry_delay_seconds = [] then 0
      else retry_delay_seconds ! min k (length retry_delay_seconds - 1))"

fun run_with_retries ::
  "nat \<Rightarrow> nat list \<Rightarrow> nat \<Rightarrow> (world \<Rightarrow> 'a result \<times> world) \<Rightarrow> world \<Rightarrow> 'a result \<times> world" where
  "run_with_retries 0 retry_delay_seconds k fn w = fn w"
| "run_with_retries (Suc retries) retry_delay_seconds k fn w =
     (case fn w of
        (Inr v, w') \<Rightarrow> (Inr v, w')
      | (Inl exn, w') \<Rightarrow>
          run_with_retries retries retry_delay_seconds (Suc k) fn
            (w'\<lparr>sleeps := sleeps w' @ [retry_delay retry_delay_seconds k]\<rparr>))"

definition task ::
  "nat \<Rightarrow> nat list \<Rightarrow> task_call \<Rightarrow> (world \<Rightarrow> 'a result \<times> world) \<Rightarrow> world \<Rightarrow> 'a result \<times> world" where
  "task retries retry_delay_seconds call fn w =
     run_with_retries retries retry_delay_seconds 0 fn (w\<lparr>task_runs := task_runs w @ [call]\<rparr>)"

definition fetch_page :: "env \<Rightarrow> int \<Rightarrow> string \<Rightarrow> int \<Rightarrow> world \<Rightarrow> page result \<times> world" where
  "fetch_page e page api_base per_page =
     task 3 [2, 5, 15] (Fetch_page page api_base per_page) (fetch_page_fn e page api_base per_page)"

section \<open>The Writer's text: \<open>to_csv\<close>\<close>

text \<open>
  \<^verbatim>\<open>df.to_csv(path, index=False)\<close> hands the column names and then the rows, cell by cell
  as text, to a \<^verbatim>\<open>csv.writer\<close> with the default dialect: fields separated by commas,
  a field quoted when it holds a comma, a quote or a line break (as the writer of current
  CPython does for both line-break characters), quotes inside a quoted field doubled, every
  row ended by the line separator. A row that would be written as nothing, the single
  empty field, is written as two quotes.
\<close>

abbreviation LF :: char where "LF \<equiv> CHR 0x0A"
abbreviation CR :: char where "CR \<equiv> CHR 0x0D"
abbreviation DQ :: char where "DQ \<equiv> CHR 0x22"
abbreviation COMMA :: char where "COMMA \<equiv> CHR 0x2C"

definition special :: "char \<Rightarrow> bool" where
  "special c = (c = COMMA \<or> c = DQ \<or> c = CR \<or> c = LF)"

definition doubled :: "string \<Rightarrow> string" where
  "doubled field = concat (map (\<lambda>c. if c = DQ then [DQ, DQ] else [c]) field)"

definition write_field :: "string \<Rightarrow> string" where
  "write_field field =
     (if \<exists>c\<in>set field. special c then [DQ] @ doubled field @ [DQ] else field)"

fun join_fields :: "string list \<Rightarrow> string" where
  "join_fields [] = []"
| "join_fields [field] = field"
| "join_fields (field # others) = field @ [COMMA] @ join_fields others"

definition writerow :: "string \<Rightarrow> string list \<Rightarrow> string" where
  "writerow lineterminator row =
     (let rec = join_fields (map write_field row)
      in (if row \<noteq> [] \<and> rec = [] then [DQ, DQ] else rec) @ lineterminator)"

text \<open>
  The text of a cell: nothing for a missing cell and for a null (\<^verbatim>\<open>na_rep=''\<close>), a
  string as it is, and for any other value what pandas makes of it in its column.
\<close>

definition column_of :: "dataframe \<Rightarrow> nat \<Rightarrow> cell list" where
  "column_of df j = map (\<lambda>row. if j < length row then row ! j else None) (rows df)"

definition cell_text :: "env \<Rightarrow> cell list \<Rightarrow> cell \<Rightarrow> string" where
  "cell_text e column c =
     (case c of
        None \<Rightarrow> []
      | Some PNone \<Rightarrow> []
      | Some (PStr s) \<Rightarrow> s
      | Some v \<Rightarrow> text_of e column v)"

definition values_for_csv :: "env \<Rightarrow> dataframe \<Rightarrow> string list list" where
  "values_for_csv e df =
     map (\<lambda>row. map (\<lambda>jc. cell_text e (column_of df (fst jc)) (snd jc)) (enumerate 0 row))
       (rows df)"

definition to_csv :: "env \<Rightarrow> dataframe \<Rightarrow> string" where
  "to_csv e df =
     writerow (linesep e) (columns df) @
     concat (map (writerow (linesep e)) (values_for_csv e df))"

section \<open>The tasks \<open>to_dataframe\<close> and \<open>save_csv\<close>\<close>

definition to_dataframe :: "page list \<Rightarrow> world \<Rightarrow> dataframe result \<times> world" where
  "to_dataframe raw_articles = task 0 [] To_dataframe (\<lambda>w. (to_dataframe_fn raw_articles, w))"

definition head :: "dataframe \<Rightarrow> dataframe" where
  "head df = df\<lparr>rows := take 5 (rows df)\<rparr>"

text \<open>
  \<^verbatim>\<open>to_csv\<close> opens the path for writing, which fails with \<open>OSError\<close> and leaves the disk
  as it was when the path cannot be opened; a failure in the middle of writing is not
  modelled. A file that was there is replaced.
\<close>

definition save_csv_fn :: "env \<Rightarrow> dataframe \<Rightarrow> string \<Rightarrow> world \<Rightarrow> unit result \<times> world" where
  "save_csv_fn e df path w =
     (if can_write e path
      then (Inr (), w\<lparr>files := (files w)(path \<mapsto> to_csv e df),
                       stdout := stdout w @ [Saved (length (rows df)) path (head df)]\<rparr>)
      else (Inl OSError, w))"

definition save_csv :: "env \<Rightarrow> dataframe \<Rightarrow> string \<Rightarrow> world \<Rightarrow> unit result \<times> world" where
  "save_csv e df path = task 0 [] (Save_csv path) (save_csv_fn e df path)"

section \<open>The flow \<open>etl\<close>\<close>

text \<open>
  The loop \<^verbatim>\<open>for page_number in range(1, pages + 1)\<close> appends each fetched page to
  \<open>raw_pages\<close>; an exception of a task leaves the loop and the flow.
\<close>

fun fetch_pages ::
  "env \<Rightarrow> string \<Rightarrow> int \<Rightarrow> int list \<Rightarrow> page list \<Rightarrow> world \<Rightarrow> page list result \<times> world" where
  "fetch_pages e api_base per_page [] raw_pages w = (Inr raw_pages, w)"
| "fetch_pages e api_base per_page (page_number # rest) raw_pages w =
     (case fetch_page e page_number api_base per_page w of
        (Inl exn, w') \<Rightarrow> (Inl exn, w')
      | (Inr p, w') \<Rightarrow> fetch_pages e api_base per_page rest (raw_pages @ [p]) w')"

definition etl :: "env \<Rightarrow> string \<Rightarrow> int \<Rightarrow> int \<Rightarrow> string \<Rightarrow> world \<Rightarrow> unit result \<times> world" where
  "etl e api_base pages per_page output_file w =
     (case fetch_pages e api_base per_page [1..pages] [] w of
        (Inl exn, w1) \<Rightarrow> (Inl exn, w1)
      | (Inr raw_pages, w1) \<Rightarrow>
          (case to_dataframe raw_pages w1 of
             (Inl exn, w2) \<Rightarrow> (Inl exn, w2)
           | (Inr df, w2) \<Rightarrow> save_csv e df output_file w2))"

section \<open>Reading the file back\<close>

text \<open>
  Reading a file as CSV is what \<^verbatim>\<open>csv.reader\<close> does with the default dialect on a file
  opened with \<^verbatim>\<open>newline=''\<close>: a machine over the characters, in the states of the
  reader of CPython. A line feed, a carriage return or the two in a row end a record
  outside quotes; a line with nothing on it is an empty record; what is left at the end
  of the input is a last record.
\<close>

datatype reader_state =
  Start_record | Start_field | In_field | In_quoted_field | Quote_in_quoted_field | Eat_crnl

type_synonym parser = "reader_state \<times> string \<times> string list"

definition end_record :: "char \<Rightarrow> string list \<Rightarrow> parser \<times> string list list" where
  "end_record c row = ((if c = CR then Eat_crnl else Start_record, [], []), [row])"

definition start_field :: "string list \<Rightarrow> char \<Rightarrow> parser \<times> string list list" where
  "start_field seen c =
     (if c = LF \<or> c = CR then end_record c (seen @ [[]])
      else if c = DQ then ((In_quoted_field, [], seen), [])
      else if c = COMMA then ((Start_field, [], seen @ [[]]), [])
      else ((In_field, [c], seen), []))"

definition start_record :: "char \<Rightarrow> parser \<times> string list list" where
  "start_record c = (if c = LF \<or> c = CR then end_record c [] else start_field [] c)"

fun step :: "parser \<Rightarrow> char \<Rightarrow> parser \<times> string list list" where
  "step (Start_record, field, seen) c = start_record c"
| "step (Eat_crnl, field, seen) c =
     (if c = LF then ((Start_record, [], []), []) else start_record c)"
| "step (Start_field, field, seen) c = start_field seen c"
| "step (In_field, field, seen) c =
     (if c = LF \<or> c = CR then end_record c (seen @ [field])
      else if c = COMMA then ((Start_field, [], seen @ [field]), [])
      else ((In_field, field @ [c], seen), []))"
| "step (In_quoted_field, field, seen) c =
     (if c = DQ then ((Quote_in_quoted_field, field, seen), [])
      else ((In_quoted_field, field @ [c], seen), []))"
| "step (Quote_in_quoted_field, field, seen) c =
     (if c = DQ then ((In_quoted_field, field @ [DQ], seen), [])
      else if c = COMMA then ((Start_field, [], seen @ [field]), [])
      else if c = LF \<or> c = CR then end_record c (seen @ [field])
      else ((In_field, field @ [c], seen), []))"





section \<open>Records that have the fields\<close>

text \<open>
  The value a record holds under a path of keys: \<^verbatim>\<open>r["id"]\<close> for the path
  \<open>[''id'']\<close>, \<^verbatim>\<open>r["user"]["username"]\<close> for \<open>[''user'', ''username'']\<close>. The eight
  required fields are seven top-level keys and the username inside the object \<open>user\<close>.
\<close>

fun field_value :: "pydict \<Rightarrow> string list \<Rightarrow> pyval option" where
  "field_value d [] = None"
| "field_value d [key] = map_of d key"
| "field_value d (key # path) =
     (case map_of d key of Some (PDict u) \<Rightarrow> field_value u path | _ \<Rightarrow> None)"




section \<open>Sample data\<close>

text \<open>Three complete articles, and the table of the pages \<open>[[article1, article2], [article3]]\<close>.\<close>

definition article1 :: article where
  "article1 =
     [(''id'', PInt 1), (''title'', PStr ''first''), (''published_at'', PStr ''2024-01-01''),
      (''url'', PStr ''https://dev.to/1''), (''comments_count'', PInt 0),
      (''positive_reactions_count'', PInt 3), (''tag_list'', PList [PStr ''etl'']),
      (''user'', PDict [(''name'', PStr ''Ann''), (''username'', PStr ''ann'')])]"

definition article2 :: article where
  "article2 =
     [(''id'', PInt 2), (''title'', PStr ''second''), (''published_at'', PStr ''2024-01-02''),
      (''url'', PStr ''https://dev.to/2''), (''comments_count'', PInt 5),
      (''positive_reactions_count'', PInt 8), (''tag_list'', PList []),
      (''user'', PDict [(''username'', PStr ''bob'')])]"

definition article3 :: article where
  "article3 =
     [(''id'', PInt 3), (''title'', PStr ''third''), (''published_at'', PNone),
      (''url'', PStr ''https://dev.to/3''), (''comments_count'', PInt 1),
      (''positive_reactions_count'', PInt 0), (''tag_list'', PList [PStr ''a'', PStr ''b'']),
      (''user'', PDict [(''username'', PStr ''cy'')])]"

definition table123 :: dataframe where
  "table123 =
     \<lparr>columns = selected_fields,
      rows =
        [[Some (PInt 1), Some (PStr ''first''), Some (PStr ''2024-01-01''),
          Some (PStr ''https://dev.to/1''), Some (PInt 0), Some (PInt 3),
          Some (PList [PStr ''etl'']), Some (PStr ''ann'')],
         [Some (PInt 2), Some (PStr ''second''), Some (PStr ''2024-01-02''),
          Some (PStr ''https://dev.to/2''), Some (PInt 5), Some (PInt 8),
          Some (PList []), Some (PStr ''bob'')],
         [Some (PInt 3), Some (PStr ''third''), Some PNone,
          Some (PStr ''https://dev.to/3''), Some (PInt 1), Some (PInt 0),
          Some (PList [PStr ''a'', PStr ''b'']), Some (PStr ''cy'')]]\<rparr>"

text \<open>
  A formatter for the samples: what Python's \<^verbatim>\<open>str\<close> gives for values whose strings need
  no escape, whatever the column.
\<close>

fun show_nat :: "nat \<Rightarrow> string" where
  "show_nat n =
     (if n < 10 then [''0123456789'' ! n]
      else show_nat (n div 10) @ [''0123456789'' ! (n mod 10)])"

definition show_int :: "int \<Rightarrow> string" where
  "show_int n = (if n < 0 then ''-'' @ show_nat (nat (- n)) else show_nat (nat n))"

fun comma_sep :: "string list \<Rightarrow> string" where
  "comma_sep [] = []"
| "comma_sep [x] = x"
| "comma_sep (x # xs) = x @ '', '' @ comma_sep xs"

fun py_repr :: "pyval \<Rightarrow> string" where
  "py_repr PNone = ''None''"
| "py_repr (PBool b) = (if b then ''True'' else ''False'')"
| "py_repr (PInt n) = show_int n"
| "py_repr (PStr s) = [CHR 0x27] @ s @ [CHR 0x27]"
| "py_repr (PList vs) = ''['' @ comma_sep (map py_repr vs) @ '']''"
| "py_repr (PDict kvs) =
     ''{'' @ comma_sep (map (\<lambda>kv. [CHR 0x27] @ fst kv @ [CHR 0x27] @ '': '' @ py_repr (snd kv)) kvs)
       @ ''}''"

definition py_str :: "pyval \<Rightarrow> string" where
  "py_str v = (case v of PStr s \<Rightarrow> s | _ \<Rightarrow> py_repr v)"

text \<open>A world in which nothing has happened yet.\<close>

definition world0 :: world where
  "world0 = \<lparr>requests = [], sleeps = [], stdout = [], files = Map.empty, task_runs = []\<rparr>"

section \<open>Attempts of one fetch\<close>

text \<open>
  \<open>failed_attempts e request n retries\<close> counts the attempts that fail before the first
  one that succeeds, among the \<open>retries\<close> attempts that start with request number \<open>n\<close>;
  \<open>attempted w page request delays k j\<close> is the world after \<open>j\<close> failed attempts and one
  more attempt, the retries counted from \<open>k\<close>.
\<close>

definition failed_attempts :: "env \<Rightarrow> request \<Rightarrow> nat \<Rightarrow> nat \<Rightarrow> nat" where
  "failed_attempts e request n retries =
     length (takeWhile (\<lambda>i. isl (result_of (http_get e (n + i) request))) [0..<retries])"

definition attempted :: "world \<Rightarrow> int \<Rightarrow> request \<Rightarrow> nat list \<Rightarrow> nat \<Rightarrow> nat \<Rightarrow> world" where
  "attempted w page request delays k j =
     w\<lparr>stdout := stdout w @ replicate (Suc j) (Fetching_page page),
       requests := requests w @ replicate (Suc j) request,
       sleeps := sleeps w @ map (retry_delay delays) [k..<k + j]\<rparr>"

text \<open>
  The failures the specification calls transient: no response (a network error or a
  timeout), or a response whose status code is not 2xx.
\<close>

fun transient :: "http_outcome \<Rightarrow> bool" where
  "transient No_response = True"
| "transient (Response status_code content) = (\<not> is_success status_code)"

text \<open>
  Sample servers: one that answers from the third request on, and one that always
  answers 503.
\<close>

definition flaky_env :: env where
  "flaky_env =
     \<lparr>http_get = (\<lambda>n request. if n < 2 then No_response
                                 else Response 200 (Json_array [article1, article2])),
      can_write = (\<lambda>path. True),
      linesep = [LF], text_of = (\<lambda>column. py_str)\<rparr>"

definition down_env :: env where
  "down_env = \<lparr>http_get = (\<lambda>n request. Response 503 Malformed), can_write = (\<lambda>path. True),
      linesep = [LF], text_of = (\<lambda>column. py_str)\<rparr>"

text \<open>
  More sample servers: one that serves two pages, \<open>[article1, article2]\<close> and
  \<open>[article3]\<close>, and nothing beyond; one that serves empty pages only.
\<close>

definition paged_env :: env where
  "paged_env =
     \<lparr>http_get = (\<lambda>n request.
         if map_of (params request) ''page'' = Some 1
         then Response 200 (Json_array [article1, article2])
         else if map_of (params request) ''page'' = Some 2
         then Response 200 (Json_array [article3])
         else Response 200 (Json_array [])),
      can_write = (\<lambda>path. True),
      linesep = [LF], text_of = (\<lambda>column. py_str)\<rparr>"

definition empty_env :: env where
  "empty_env = \<lparr>http_get = (\<lambda>n request. Response 200 (Json_array [])), can_write = (\<lambda>path. True),
      linesep = [LF], text_of = (\<lambda>column. py_str)\<rparr>"

text \<open>
  An article without a title, the table of \<open>[article1, untitled]\<close>, and servers for
  them; a server whose first answer is not JSON; a disk that cannot be written.
\<close>

definition untitled :: article where
  "untitled =
     [(''id'', PInt 4), (''published_at'', PStr ''2024-01-04''),
      (''url'', PStr ''https://dev.to/4''), (''comments_count'', PInt 2),
      (''positive_reactions_count'', PInt 1), (''tag_list'', PList []),
      (''user'', PDict [(''username'', PStr ''dee'')])]"

definition table_untitled :: dataframe where
  "table_untitled =
     \<lparr>columns = selected_fields,
      rows =
        [[Some (PInt 1), Some (PStr ''first''), Some (PStr ''2024-01-01''),
          Some (PStr ''https://dev.to/1''), Some (PInt 0), Some (PInt 3),
          Some (PList [PStr ''etl'']), Some (PStr ''ann'')],
         [Some (PInt 4), None, Some (PStr ''2024-01-04''),
          Some (PStr ''https://dev.to/4''), Some (PInt 2), Some (PInt 1),
          Some (PList []), Some (PStr ''dee'')]]\<rparr>"

definition mixed_env :: env where
  "mixed_env =
     \<lparr>http_get = (\<lambda>n request. Response 200 (Json_array [article1, untitled])),
      can_write = (\<lambda>path. True),
      linesep = [LF], text_of = (\<lambda>column. py_str)\<rparr>"

definition untitled_env :: env where
  "untitled_env =
     \<lparr>http_get = (\<lambda>n request. Response 200 (Json_array [untitled])),
      can_write = (\<lambda>path. True),
      linesep = [LF], text_of = (\<lambda>column. py_str)\<rparr>"



section \<open>Properties of the Transformer\<close>

subsection \<open>Frames and column selection\<close>

lemma fold_seen_set:
  "set (fold (\<lambda>k seen. if k \<in> set seen then seen else seen @ [k]) xs acc) = set acc \<union> set xs"
  by (induction xs arbitrary: acc) auto

lemma set_unique_keys: "set (unique_keys ds) = (\<Union>d\<in>set ds. fst ` set d)"
  by (auto simp: unique_keys_def fold_seen_set)

lemma cell_at_DataFrame:
  "k \<in> set (unique_keys ds) \<Longrightarrow>
   cell_at (DataFrame ds) (map (map_of d) (unique_keys ds)) k = map_of d k"
  by (simp add: cell_at_def DataFrame_def Let_def map_of_zip_map)

lemma getitem_DataFrame:
  "getitem (DataFrame ds) keys =
     (if \<exists>k\<in>set keys. \<forall>d\<in>set ds. k \<notin> fst ` set d
      then Inl (KeyError (filter (\<lambda>k. \<forall>d\<in>set ds. k \<notin> fst ` set d) keys))
      else Inr \<lparr>columns = keys, rows = map (\<lambda>d. map (map_of d) keys) ds\<rparr>)"
proof -
  have cols: "columns (DataFrame ds) = unique_keys ds"
    by (simp add: DataFrame_def Let_def)
  have rws: "rows (DataFrame ds) = map (\<lambda>d. map (map_of d) (unique_keys ds)) ds"
    by (simp add: DataFrame_def Let_def)
  have miss: "filter (\<lambda>k. k \<notin> set (columns (DataFrame ds))) keys
      = filter (\<lambda>k. \<forall>d\<in>set ds. k \<notin> fst ` set d) keys"
    by (rule filter_cong) (auto simp: cols set_unique_keys)
  show ?thesis
  proof (cases "\<exists>k\<in>set keys. \<forall>d\<in>set ds. k \<notin> fst ` set d")
    case True
    then have "filter (\<lambda>k. \<forall>d\<in>set ds. k \<notin> fst ` set d) keys \<noteq> []"
      by (simp add: filter_empty_conv)
    with True show ?thesis
      by (simp add: getitem_def miss Let_def)
  next
    case False
    then have all: "\<forall>k\<in>set keys. k \<in> set (unique_keys ds)"
      by (auto simp: set_unique_keys)
    from False have empty: "filter (\<lambda>k. \<forall>d\<in>set ds. k \<notin> fst ` set d) keys = []"
      by (simp add: filter_empty_conv)
    have "map (\<lambda>row. map (cell_at (DataFrame ds) row) keys) (rows (DataFrame ds))
        = map (\<lambda>d. map (map_of d) keys) ds"
      using all by (simp add: rws cell_at_DataFrame)
    with False show ?thesis
      by (simp add: getitem_def miss empty Let_def)
  qed
qed

lemma to_dataframe_fn_eq:
  "to_dataframe_fn pages =
     (if \<exists>c\<in>set selected_fields. \<forall>r\<in>set (concat pages). lacks r c
      then Inl (KeyError (filter (\<lambda>c. \<forall>r\<in>set (concat pages). lacks r c) selected_fields))
      else Inr \<lparr>columns = selected_fields, rows = map row_of (concat pages)\<rparr>)"
  by (simp add: to_dataframe_fn_def json_normalize_def getitem_DataFrame lacks_def flat_def
      row_of_def comp_def Let_def)


subsection \<open>Folds that keep, or set, what is observed\<close>





subsection \<open>Flattening a record\<close>


lemma new_key_empty [simp]: "new_key [] ''.'' k = k"
  by (simp add: new_key_def removeprefix_def)

lemma new_key_nonempty [simp]: "ks \<noteq> [] \<Longrightarrow> new_key ks ''.'' k = ks @ ''.'' @ k"
  by (simp add: new_key_def)













subsection \<open>The sample articles\<close>

lemmas eval_defs =
  flat_def normalise_json_ordered_def new_key_def removeprefix_def selected_fields_def

lemma row_of_article1:
  "row_of article1 = [Some (PInt 1), Some (PStr ''first''), Some (PStr ''2024-01-01''),
          Some (PStr ''https://dev.to/1''), Some (PInt 0), Some (PInt 3),
          Some (PList [PStr ''etl'']), Some (PStr ''ann'')]"
  by (simp add: row_of_def eval_defs article1_def)

lemma row_of_article2:
  "row_of article2 = [Some (PInt 2), Some (PStr ''second''), Some (PStr ''2024-01-02''),
          Some (PStr ''https://dev.to/2''), Some (PInt 5), Some (PInt 8),
          Some (PList []), Some (PStr ''bob'')]"
  by (simp add: row_of_def eval_defs article2_def)

lemma row_of_article3:
  "row_of article3 = [Some (PInt 3), Some (PStr ''third''), Some PNone,
          Some (PStr ''https://dev.to/3''), Some (PInt 1), Some (PInt 0),
          Some (PList [PStr ''a'', PStr ''b'']), Some (PStr ''cy'')]"
  by (simp add: row_of_def eval_defs article3_def)

lemma lacks_iff: "lacks r c \<longleftrightarrow> map_of (flat r) c = None"
  by (simp add: lacks_def map_of_eq_None_iff)

lemma not_lacks_article1: "c \<in> set selected_fields \<Longrightarrow> \<not> lacks article1 c"
  by (auto simp: lacks_iff eval_defs article1_def)

lemma to_dataframe_fn_demo: "to_dataframe_fn [[article1, article2], [article3]] = Inr table123"
proof -
  have "\<not> (\<exists>c\<in>set selected_fields. \<forall>r\<in>set (concat [[article1, article2], [article3]]). lacks r c)"
    using not_lacks_article1 by auto
  then show ?thesis
    by (simp only: to_dataframe_fn_eq if_False)
       (simp add: row_of_article1 row_of_article2 row_of_article3 table123_def)
qed


subsection \<open>Rows in fetch order\<close>

lemma nth_concat_page:
  "i < length pages \<Longrightarrow> j < length (pages ! i) \<Longrightarrow>
   concat pages ! (sum_list (map length (take i pages)) + j) = pages ! i ! j"
proof (induction pages arbitrary: i)
  case Nil
  then show ?case by simp
next
  case (Cons p pages)
  show ?case
  proof (cases i)
    case 0
    with Cons.prems show ?thesis by (simp add: nth_append)
  next
    case (Suc k)
    with Cons.prems have "concat pages ! (sum_list (map length (take k pages)) + j) = pages ! k ! j"
      by (intro Cons.IH) auto
    with Suc show ?thesis by (simp add: nth_append)
  qed
qed

lemma offset_in_concat:
  "i < length pages \<Longrightarrow> j < length (pages ! i) \<Longrightarrow>
   sum_list (map length (take i pages)) + j < length (concat pages)"
proof (induction pages arbitrary: i)
  case Nil
  then show ?case by simp
next
  case (Cons p pages)
  show ?case
  proof (cases i)
    case 0
    with Cons.prems show ?thesis by simp
  next
    case (Suc k)
    with Cons.prems have "sum_list (map length (take k pages)) + j < length (concat pages)"
      by (intro Cons.IH) auto
    with Suc show ?thesis by simp
  qed
qed

lemma to_dataframe_fn_rows:
  "to_dataframe_fn pages = Inr df \<Longrightarrow> rows df = map row_of (concat pages)"
  by (auto simp: to_dataframe_fn_eq split: if_splits)

text \<open>
  Claim C3. When the Transformer produces a table from a sequence of pages, the table
  has exactly \<open>sum(len(page) for page in pages)\<close> rows, and the row at offset \<open>j\<close>
  of page \<open>i\<close> (after all the rows of the pages before it) is the row of the \<open>j\<close>-th
  record of that page. In particular two pages holding the records \<open>p1r1, p1r2\<close> and
  \<open>p2r1\<close> give exactly the three rows of \<open>p1r1\<close>, \<open>p1r2\<close>, \<open>p2r1\<close>, in this order.
\<close>

theorem table_rows_follow_pages:
  assumes "to_dataframe_fn pages = Inr df"
  shows "length (rows df) = sum_list (map length pages) \<and>
         (\<forall>i<length pages. \<forall>j<length (pages ! i).
            rows df ! (sum_list (map length (take i pages)) + j) = row_of (pages ! i ! j)) \<and>
         (\<forall>p1r1 p1r2 p2r1. pages = [[p1r1, p1r2], [p2r1]] \<longrightarrow>
            rows df = [row_of p1r1, row_of p1r2, row_of p2r1])"
proof -
  have rws: "rows df = map row_of (concat pages)"
    using assms by (rule to_dataframe_fn_rows)
  have "length (rows df) = sum_list (map length pages)"
    by (simp add: rws length_concat)
  moreover have "rows df ! (sum_list (map length (take i pages)) + j) = row_of (pages ! i ! j)"
    if "i < length pages" "j < length (pages ! i)" for i j
    using that by (simp add: rws offset_in_concat nth_concat_page)
  moreover have "rows df = [row_of p1r1, row_of p1r2, row_of p2r1]"
    if "pages = [[p1r1, p1r2], [p2r1]]" for p1r1 p1r2 p2r1
    using that by (simp add: rws)
  ultimately show ?thesis by blast
qed

theorem table_rows_follow_pages_witness:
  "to_dataframe_fn [[article1, article2], [article3]] = Inr table123 \<and>
   length (rows table123) = 3 \<and>
   rows table123 ! 2 = row_of article3 \<and>
   rows table123 = [row_of article1, row_of article2, row_of article3]"
proof -
  have run: "to_dataframe_fn [[article1, article2], [article3]] = Inr table123"
    by (rule to_dataframe_fn_demo)
  have "rows table123 ! (sum_list (map length (take 1 [[article1, article2], [article3]])) + 0)
      = row_of ([[article1, article2], [article3]] ! 1 ! 0)"
    using table_rows_follow_pages [OF run] by simp
  then have "rows table123 ! 2 = row_of article3"
    by (simp add: numeral_2_eq_2)
  with run table_rows_follow_pages [OF run] show ?thesis
    by simp
qed

subsection \<open>The row of a complete record\<close>


lemma to_dataframe_task:
  "to_dataframe pages w = (to_dataframe_fn pages, w\<lparr>task_runs := task_runs w @ [To_dataframe]\<rparr>)"
  by (simp add: to_dataframe_def task_def)



section \<open>Properties of the Fetcher\<close>

subsection \<open>What a fetch does, by the number of failed attempts\<close>

lemma fetch_page_fn_eq:
  "fetch_page_fn e page api_base per_page w =
     (result_of (http_get e (length (requests w)) (get_request page api_base per_page)),
      w\<lparr>stdout := stdout w @ [Fetching_page page],
        requests := requests w @ [get_request page api_base per_page]\<rparr>)"
  by (simp add: fetch_page_fn_def Let_def)

lemma failed_attempts_0 [simp]: "failed_attempts e request n 0 = 0"
  by (simp add: failed_attempts_def)

lemma failed_attempts_Suc:
  "failed_attempts e request n (Suc retries) =
     (if isl (result_of (http_get e n request)) then Suc (failed_attempts e request (Suc n) retries)
      else 0)"
proof -
  have "[0..<Suc retries] = 0 # map Suc [0..<retries]"
    by (simp add: upt_conv_Cons map_Suc_upt del: upt_Suc)
  then show ?thesis
    by (simp add: failed_attempts_def takeWhile_map comp_def del: upt_Suc)
qed

lemma failed_attempts_le: "failed_attempts e request n retries \<le> retries"
  unfolding failed_attempts_def
  by (metis length_takeWhile_le length_upt diff_zero)

lemma run_with_retries_attempts:
  assumes fn: "\<And>w. fn w =
      (result_of (http_get e (length (requests w)) request),
       w\<lparr>stdout := stdout w @ [Fetching_page page], requests := requests w @ [request]\<rparr>)"
  shows "run_with_retries retries delays k fn w =
     (result_of (http_get e
         (length (requests w) + failed_attempts e request (length (requests w)) retries) request),
      attempted w page request delays k (failed_attempts e request (length (requests w)) retries))"
proof (induction retries arbitrary: w k)
  case 0
  show ?case
    by (simp add: fn attempted_def)
next
  case (Suc retries)
  let ?n = "length (requests w)"
  show ?case
  proof (cases "result_of (http_get e ?n request)")
    case (Inr p)
    then show ?thesis
      by (simp add: fn failed_attempts_Suc attempted_def)
  next
    case (Inl exn)
    let ?w' = "w\<lparr>stdout := stdout w @ [Fetching_page page],
        requests := requests w @ [request],
        sleeps := sleeps w @ [retry_delay delays k]\<rparr>"
    have upt: "[k..<k + Suc j] = k # [Suc k..<Suc k + j]" for j
      by (simp add: upt_conv_Cons del: upt_Suc)
    have w: "attempted ?w' page request delays (Suc k) j = attempted w page request delays k (Suc j)" for j
      unfolding attempted_def upt
      by (simp add: replicate_append_same)
    have "run_with_retries (Suc retries) delays k fn w = run_with_retries retries delays (Suc k) fn ?w'"
      using Inl by (simp add: fn)
    also have "\<dots> = (result_of (http_get e
         (Suc ?n + failed_attempts e request (Suc ?n) retries) request),
      attempted ?w' page request delays (Suc k) (failed_attempts e request (Suc ?n) retries))"
      by (simp add: Suc.IH)
    finally show ?thesis
      using Inl by (simp add: failed_attempts_Suc w)
  qed
qed

lemma fetch_page_eq:
  "fetch_page e page api_base per_page w =
     (result_of (http_get e
         (length (requests w) +
          failed_attempts e (get_request page api_base per_page) (length (requests w)) 3)
         (get_request page api_base per_page)),
      attempted (w\<lparr>task_runs := task_runs w @ [Fetch_page page api_base per_page]\<rparr>) page
        (get_request page api_base per_page) [2, 5, 15] 0
        (failed_attempts e (get_request page api_base per_page) (length (requests w)) 3))"
  unfolding fetch_page_def task_def
  by (subst run_with_retries_attempts [where e = e and page = page
        and request = "get_request page api_base per_page"])
     (simp_all add: fetch_page_fn_eq)


subsection \<open>The retry policy\<close>

lemma transient_fails: "transient outcome \<Longrightarrow> isl (result_of outcome)"
  by (cases outcome) auto

lemma delays_2_5_15: "j \<le> 3 \<Longrightarrow> map (retry_delay [2, 5, 15]) [0..<j] = take j [2, 5, 15]"
proof -
  assume "j \<le> 3"
  then consider "j = 0" | "j = 1" | "j = 2" | "j = 3"
    by linarith
  then show ?thesis
    by cases (simp_all add: retry_delay_def numeral_2_eq_2 numeral_3_eq_3)
qed

lemma failed_attempts_3:
  "failed_attempts e request n 3 =
     (if \<not> isl (result_of (http_get e n request)) then 0
      else if \<not> isl (result_of (http_get e (n + 1) request)) then 1
      else if \<not> isl (result_of (http_get e (n + 2) request)) then 2
      else 3)"
  by (simp add: numeral_3_eq_3 failed_attempts_Suc)

lemma fetch_page_requests:
  "requests (snd (fetch_page e page api_base per_page w)) =
     requests w @
     replicate
       (Suc (failed_attempts e (get_request page api_base per_page) (length (requests w)) 3))
       (get_request page api_base per_page)"
  by (simp add: fetch_page_eq attempted_def)

lemma fetch_page_sleeps:
  "sleeps (snd (fetch_page e page api_base per_page w)) =
     sleeps w @
     take (failed_attempts e (get_request page api_base per_page) (length (requests w)) 3)
       [2, 5, 15]"
  by (simp add: fetch_page_eq attempted_def delays_2_5_15 failed_attempts_le del: upt_Suc)

lemma fetch_page_files [simp]: "files (snd (fetch_page e page api_base per_page w)) = files w"
  by (simp add: fetch_page_eq attempted_def)

lemma fetch_page_task_runs [simp]:
  "task_runs (snd (fetch_page e page api_base per_page w)) =
     task_runs w @ [Fetch_page page api_base per_page]"
  by (simp add: fetch_page_eq attempted_def)

lemma fetch_page_result:
  "fst (fetch_page e page api_base per_page w) =
     result_of (http_get e
       (length (requests w) +
        failed_attempts e (get_request page api_base per_page) (length (requests w)) 3)
       (get_request page api_base per_page))"
  by (simp add: fetch_page_eq)

text \<open>
  Claim C6. A fetch sends at most four requests, one attempt and up to three retries,
  and waits 2, then 5, then 15 seconds before the retries it makes. When all four
  attempts fail transiently, the exception of the last attempt propagates, after the
  waits 2, 5 and 15. When the first two attempts fail transiently and the third gets a
  2xx response with a JSON array, the fetch returns that page and no exception, after
  the waits 2 and 5.
\<close>

theorem fetch_page_retry_policy:
  "(\<exists>j\<le>3.
      requests (snd (fetch_page e page api_base per_page w)) =
        requests w @ replicate (Suc j) (get_request page api_base per_page) \<and>
      sleeps (snd (fetch_page e page api_base per_page w)) = sleeps w @ take j [2, 5, 15]) \<and>
   ((\<forall>i<4. transient (http_get e (length (requests w) + i) (get_request page api_base per_page))) \<longrightarrow>
      (\<exists>exn. fst (fetch_page e page api_base per_page w) = Inl exn \<and>
         result_of (http_get e (length (requests w) + 3) (get_request page api_base per_page)) = Inl exn) \<and>
      requests (snd (fetch_page e page api_base per_page w)) =
        requests w @ replicate 4 (get_request page api_base per_page) \<and>
      sleeps (snd (fetch_page e page api_base per_page w)) = sleeps w @ [2, 5, 15]) \<and>
   (transient (http_get e (length (requests w)) (get_request page api_base per_page)) \<and>
    transient (http_get e (length (requests w) + 1) (get_request page api_base per_page)) \<and>
    http_get e (length (requests w) + 2) (get_request page api_base per_page) =
      Response status_code (Json_array articles) \<and>
    is_success status_code \<longrightarrow>
      fst (fetch_page e page api_base per_page w) = Inr articles \<and>
      requests (snd (fetch_page e page api_base per_page w)) =
        requests w @ replicate 3 (get_request page api_base per_page) \<and>
      sleeps (snd (fetch_page e page api_base per_page w)) = sleeps w @ [2, 5])"
proof (intro conjI impI)
  let ?request = "get_request page api_base per_page"
  let ?n = "length (requests w)"
  show "\<exists>j\<le>3.
      requests (snd (fetch_page e page api_base per_page w)) = requests w @ replicate (Suc j) ?request \<and>
      sleeps (snd (fetch_page e page api_base per_page w)) = sleeps w @ take j [2, 5, 15]"
    using failed_attempts_le [of e ?request ?n 3] fetch_page_requests fetch_page_sleeps
    by blast
next
  let ?request = "get_request page api_base per_page"
  let ?n = "length (requests w)"
  assume all: "\<forall>i<4. transient (http_get e (?n + i) ?request)"
  have "isl (result_of (http_get e (?n + i) ?request))" if "i < 4" for i
    using all that by (simp add: transient_fails)
  from this [of 0] this [of 1] this [of 2] this [of 3]
  have j: "failed_attempts e ?request ?n 3 = 3" and last: "isl (result_of (http_get e (?n + 3) ?request))"
    by (simp_all add: failed_attempts_3)
  from last obtain exn where "result_of (http_get e (?n + 3) ?request) = Inl exn"
    by (cases "result_of (http_get e (?n + 3) ?request)") auto
  then show "\<exists>exn. fst (fetch_page e page api_base per_page w) = Inl exn \<and>
         result_of (http_get e (?n + 3) ?request) = Inl exn"
    by (simp add: fetch_page_result j)
  show "requests (snd (fetch_page e page api_base per_page w)) = requests w @ replicate 4 ?request"
    by (simp add: fetch_page_requests j)
  show "sleeps (snd (fetch_page e page api_base per_page w)) = sleeps w @ [2, 5, 15]"
    by (simp add: fetch_page_sleeps j)
next
  let ?request = "get_request page api_base per_page"
  let ?n = "length (requests w)"
  assume "transient (http_get e ?n ?request) \<and> transient (http_get e (?n + 1) ?request) \<and>
    http_get e (?n + 2) ?request = Response status_code (Json_array articles) \<and>
    is_success status_code"
  then have f: "isl (result_of (http_get e ?n ?request))"
      "isl (result_of (http_get e (?n + 1) ?request))"
    and ok: "result_of (http_get e (?n + 2) ?request) = Inr articles"
    by (simp_all add: transient_fails)
  then have j: "failed_attempts e ?request ?n 3 = 2"
    by (simp add: failed_attempts_3)
  show "fst (fetch_page e page api_base per_page w) = Inr articles"
    using ok by (simp add: fetch_page_result j)
  show "requests (snd (fetch_page e page api_base per_page w)) = requests w @ replicate 3 ?request"
    by (simp add: fetch_page_requests j)
  show "sleeps (snd (fetch_page e page api_base per_page w)) = sleeps w @ [2, 5]"
    by (simp add: fetch_page_sleeps j)
qed


theorem fetch_page_retry_policy_witness:
  "transient (http_get down_env 0 (get_request 1 ''https://dev.to/api'' 30)) \<and>
   transient (http_get down_env 1 (get_request 1 ''https://dev.to/api'' 30)) \<and>
   transient (http_get down_env 2 (get_request 1 ''https://dev.to/api'' 30)) \<and>
   transient (http_get down_env 3 (get_request 1 ''https://dev.to/api'' 30)) \<and>
   fst (fetch_page down_env 1 ''https://dev.to/api'' 30 world0) = Inl (HTTPStatusError 503) \<and>
   sleeps (snd (fetch_page down_env 1 ''https://dev.to/api'' 30 world0)) = [2, 5, 15] \<and>
   length (requests (snd (fetch_page down_env 1 ''https://dev.to/api'' 30 world0))) = 4 \<and>
   transient (http_get flaky_env 0 (get_request 1 ''https://dev.to/api'' 30)) \<and>
   transient (http_get flaky_env 1 (get_request 1 ''https://dev.to/api'' 30)) \<and>
   http_get flaky_env 2 (get_request 1 ''https://dev.to/api'' 30) =
     Response 200 (Json_array [article1, article2]) \<and>
   fst (fetch_page flaky_env 1 ''https://dev.to/api'' 30 world0) = Inr [article1, article2] \<and>
   sleeps (snd (fetch_page flaky_env 1 ''https://dev.to/api'' 30 world0)) = [2, 5] \<and>
   length (requests (snd (fetch_page flaky_env 1 ''https://dev.to/api'' 30 world0))) = 3"
  using fetch_page_retry_policy [of down_env 1 "''https://dev.to/api''" 30 world0]
    fetch_page_retry_policy [of flaky_env 1 "''https://dev.to/api''" 30 world0 200
      "[article1, article2]"]
  by (simp add: down_env_def flaky_env_def world0_def is_success_def)

text \<open>
  Claim C8. An attempt whose response has a status code that is not 2xx raises
  \<open>HTTPStatusError\<close> with that status code; and when each of the four attempts of a
  fetch gets such a response, the fetch fails, after the four requests, with the
  \<open>HTTPStatusError\<close> that carries the status code of the last response.
\<close>

theorem non_2xx_raises_http_status_error:
  "(http_get e (length (requests w)) (get_request page api_base per_page) =
      Response status_code content \<and> \<not> is_success status_code \<longrightarrow>
    fst (fetch_page_fn e page api_base per_page w) = Inl (HTTPStatusError status_code)) \<and>
   ((\<forall>i<4. \<exists>content.
        http_get e (length (requests w) + i) (get_request page api_base per_page) =
          Response (status i) content \<and> \<not> is_success (status i)) \<longrightarrow>
    fst (fetch_page e page api_base per_page w) = Inl (HTTPStatusError (status 3)) \<and>
    length (requests (snd (fetch_page e page api_base per_page w))) = length (requests w) + 4)"
proof (intro conjI impI)
  assume "http_get e (length (requests w)) (get_request page api_base per_page) =
      Response status_code content \<and> \<not> is_success status_code"
  then show "fst (fetch_page_fn e page api_base per_page w) = Inl (HTTPStatusError status_code)"
    by (simp add: fetch_page_fn_eq)
next
  let ?request = "get_request page api_base per_page"
  let ?n = "length (requests w)"
  assume all: "\<forall>i<4. \<exists>content.
        http_get e (?n + i) ?request = Response (status i) content \<and> \<not> is_success (status i)"
  have r: "result_of (http_get e (?n + i) ?request) = Inl (HTTPStatusError (status i))"
    if "i < 4" for i
    using all that by fastforce
  from r [of 0] r [of 1] r [of 2] r [of 3]
  have j: "failed_attempts e ?request ?n 3 = 3"
    by (simp add: failed_attempts_3)
  show "fst (fetch_page e page api_base per_page w) = Inl (HTTPStatusError (status 3))"
    using r [of 3] by (simp add: fetch_page_result j)
  show "length (requests (snd (fetch_page e page api_base per_page w))) = length (requests w) + 4"
    by (simp add: fetch_page_requests j)
qed

theorem non_2xx_raises_http_status_error_witness:
  "http_get down_env 0 (get_request 1 ''https://dev.to/api'' 30) = Response 503 Malformed \<and>
   \<not> is_success 503 \<and>
   fst (fetch_page_fn down_env 1 ''https://dev.to/api'' 30 world0) = Inl (HTTPStatusError 503) \<and>
   fst (fetch_page down_env 1 ''https://dev.to/api'' 30 world0) = Inl (HTTPStatusError 503) \<and>
   length (requests (snd (fetch_page down_env 1 ''https://dev.to/api'' 30 world0))) = 4"
  using non_2xx_raises_http_status_error
    [of down_env world0 1 "''https://dev.to/api''" 30 503 Malformed "\<lambda>i. 503"]
  by (simp add: down_env_def world0_def is_success_def)

section \<open>Properties of the flow\<close>

subsection \<open>The fetch loop\<close>

lemma fetch_pages_files [simp]:
  "files (snd (fetch_pages e api_base per_page ns raw_pages w)) = files w"
proof (induction ns arbitrary: raw_pages w)
  case Nil
  show ?case by simp
next
  case (Cons n ns)
  obtain r w' where eq: "fetch_page e n api_base per_page w = (r, w')"
    by (cases "fetch_page e n api_base per_page w")
  then have "files w' = files w"
    using fetch_page_files [of e n api_base per_page w] by simp
  with eq Cons.IH show ?case
    by (cases r) simp_all
qed

lemma fetch_pages_requests:
  "\<exists>new. requests (snd (fetch_pages e api_base per_page ns raw_pages w)) = requests w @ new \<and>
     (\<forall>r\<in>set new. \<exists>n. r = get_request n api_base per_page)"
proof (induction ns arbitrary: raw_pages w)
  case Nil
  show ?case by simp
next
  case (Cons n ns)
  obtain r w' where eq: "fetch_page e n api_base per_page w = (r, w')"
    by (cases "fetch_page e n api_base per_page w")
  let ?sent = "replicate
      (Suc (failed_attempts e (get_request n api_base per_page) (length (requests w)) 3))
      (get_request n api_base per_page)"
  from eq have w': "requests w' = requests w @ ?sent"
    using fetch_page_requests [of e n api_base per_page w] by simp
  have sent: "\<forall>r\<in>set ?sent. \<exists>n. r = get_request n api_base per_page"
    by auto
  show ?case
  proof (cases r)
    case (Inl exn)
    with eq w' show ?thesis by auto
  next
    case (Inr p)
    from Cons.IH [of "raw_pages @ [p]" w'] obtain new where new:
      "requests (snd (fetch_pages e api_base per_page ns (raw_pages @ [p]) w')) = requests w' @ new"
      "\<forall>r\<in>set new. \<exists>n. r = get_request n api_base per_page"
      by blast
    have "requests (snd (fetch_pages e api_base per_page (n # ns) raw_pages w)) =
        requests w @ (?sent @ new)"
      using eq Inr w' new(1) by simp
    moreover have "\<forall>r\<in>set (?sent @ new). \<exists>n. r = get_request n api_base per_page"
      using new(2) by auto
    ultimately show ?thesis
      by blast
  qed
qed

lemma fetch_pages_task_runs:
  "\<exists>k\<le>length ns.
     task_runs (snd (fetch_pages e api_base per_page ns raw_pages w)) =
       task_runs w @ map (\<lambda>n. Fetch_page n api_base per_page) (take k ns) \<and>
     (isl (fst (fetch_pages e api_base per_page ns raw_pages w)) \<or> k = length ns)"
proof (induction ns arbitrary: raw_pages w)
  case Nil
  show ?case by simp
next
  case (Cons n ns)
  obtain r w' where eq: "fetch_page e n api_base per_page w = (r, w')"
    by (cases "fetch_page e n api_base per_page w")
  then have w': "task_runs w' = task_runs w @ [Fetch_page n api_base per_page]"
    using fetch_page_task_runs [of e n api_base per_page w] by simp
  show ?case
  proof (cases r)
    case (Inl exn)
    with eq w' show ?thesis
      by (intro exI [of _ 1]) simp
  next
    case (Inr p)
    from Cons.IH [of "raw_pages @ [p]" w'] obtain k where k: "k \<le> length ns"
      "task_runs (snd (fetch_pages e api_base per_page ns (raw_pages @ [p]) w')) =
         task_runs w' @ map (\<lambda>n. Fetch_page n api_base per_page) (take k ns)"
      "isl (fst (fetch_pages e api_base per_page ns (raw_pages @ [p]) w')) \<or> k = length ns"
      by blast
    with eq Inr w' show ?thesis
      by (intro exI [of _ "Suc k"]) auto
  qed
qed

lemma fetch_pages_chain:
  assumes "fetch_pages e api_base per_page ns acc w = (Inr raw_pages, w1)"
  shows "\<exists>ws. length ws = Suc (length ns) \<and> ws ! 0 = w \<and> ws ! length ns = w1 \<and>
           length raw_pages = length acc + length ns \<and> take (length acc) raw_pages = acc \<and>
           (\<forall>i<length ns. fetch_page e (ns ! i) api_base per_page (ws ! i) =
              (Inr (raw_pages ! (length acc + i)), ws ! Suc i))"
  using assms
proof (induction ns arbitrary: acc w)
  case Nil
  then show ?case
    by (intro exI [of _ "[w]"]) simp
next
  case (Cons n ns)
  obtain r w' where eq: "fetch_page e n api_base per_page w = (r, w')"
    by (cases "fetch_page e n api_base per_page w")
  with Cons.prems obtain p where r: "r = Inr p"
    by (cases r) auto
  with eq Cons.prems have "fetch_pages e api_base per_page ns (acc @ [p]) w' = (Inr raw_pages, w1)"
    by simp
  from Cons.IH [OF this] obtain ws where ws: "length ws = Suc (length ns)" "ws ! 0 = w'"
    "ws ! length ns = w1" "length raw_pages = length (acc @ [p]) + length ns"
    "take (length (acc @ [p])) raw_pages = acc @ [p]"
    "\<forall>i<length ns. fetch_page e (ns ! i) api_base per_page (ws ! i) =
        (Inr (raw_pages ! (length (acc @ [p]) + i)), ws ! Suc i)"
    by blast
  from ws(5) have "take (length acc) (take (length (acc @ [p])) raw_pages) = acc"
    by simp
  then have tk: "take (length acc) raw_pages = acc"
    by (simp add: min_def)
  from ws(4,5) have "raw_pages ! length acc = (acc @ [p]) ! length acc"
    by (metis length_append_singleton lessI nth_take)
  then have p: "raw_pages ! length acc = p"
    by simp
  have step: "fetch_page e ((n # ns) ! i) api_base per_page ((w # ws) ! i) =
      (Inr (raw_pages ! (length acc + i)), (w # ws) ! Suc i)" if "i < length (n # ns)" for i
  proof (cases i)
    case 0
    with eq r p ws(2) show ?thesis by simp
  next
    case (Suc k)
    with that ws(6) show ?thesis by simp
  qed
  show ?case
    using ws(1,3,4) tk step by (intro exI [of _ "w # ws"]) simp
qed

subsection \<open>After the loop\<close>

lemma save_csv_eq:
  "save_csv e df path w =
     (if can_write e path
      then (Inr (), w\<lparr>task_runs := task_runs w @ [Save_csv path],
                       files := (files w)(path \<mapsto> to_csv e df),
                       stdout := stdout w @ [Saved (length (rows df)) path (head df)]\<rparr>)
      else (Inl OSError, w\<lparr>task_runs := task_runs w @ [Save_csv path]\<rparr>))"
  by (simp add: save_csv_def task_def save_csv_fn_def)

lemma etl_after_fetch:
  assumes "fetch_pages e api_base per_page [1..pages] [] w = (Inr raw_pages, w1)"
  shows "etl e api_base pages per_page output_file w =
     (case to_dataframe_fn raw_pages of
        Inl exn \<Rightarrow> (Inl exn, w1\<lparr>task_runs := task_runs w1 @ [To_dataframe]\<rparr>)
      | Inr df \<Rightarrow> save_csv e df output_file (w1\<lparr>task_runs := task_runs w1 @ [To_dataframe]\<rparr>))"
  using assms by (simp add: etl_def to_dataframe_task split: sum.splits)

lemma etl_fetch_failed:
  assumes "fetch_pages e api_base per_page [1..pages] [] w = (Inl exn, w1)"
  shows "etl e api_base pages per_page output_file w = (Inl exn, w1)"
  using assms by (simp add: etl_def)

lemma etl_requests:
  "requests (snd (etl e api_base pages per_page output_file w)) =
     requests (snd (fetch_pages e api_base per_page [1..pages] [] w))"
proof -
  obtain r w1 where eq: "fetch_pages e api_base per_page [1..pages] [] w = (r, w1)"
    by (cases "fetch_pages e api_base per_page [1..pages] [] w")
  show ?thesis
  proof (cases r)
    case (Inl exn)
    with eq show ?thesis by (simp add: etl_fetch_failed)
  next
    case (Inr raw_pages)
    with eq show ?thesis
      by (simp add: etl_after_fetch save_csv_eq split: sum.splits)
  qed
qed

lemma upto_1_nth: "i < nat N \<Longrightarrow> [1..N] ! i = int i + 1"
  by (simp add: nth_upto)

text \<open>
  Claim C4. For every page count \<open>N\<close>, the flow starts the Fetcher for the page indices
  \<open>1, 2, ...\<close> in increasing order and never beyond \<open>N\<close>. When every fetch returns
  (the loop is not left by an exception), the Fetcher has been started exactly \<open>N\<close>
  times, for the indices \<open>1\<close> to \<open>N\<close> in this order, each on the world the one before
  left; the \<open>i\<close>-th page of \<open>raw_pages\<close> is what the \<open>i\<close>-th fetch returned; and the flow
  goes on with \<open>to_dataframe raw_pages\<close>.
\<close>

theorem fetcher_invoked_once_per_page:
  "(\<exists>k\<le>nat N.
      task_runs (snd (fetch_pages e api_base per_page [1..N] [] w)) =
        task_runs w @ map (\<lambda>n. Fetch_page n api_base per_page) (take k [1..N])) \<and>
   (\<forall>raw_pages w1.
      fetch_pages e api_base per_page [1..N] [] w = (Inr raw_pages, w1) \<longrightarrow>
        task_runs w1 = task_runs w @ map (\<lambda>n. Fetch_page n api_base per_page) [1..N] \<and>
        length [1..N] = nat N \<and>
        length raw_pages = nat N \<and>
        (\<exists>ws. length ws = Suc (nat N) \<and> ws ! 0 = w \<and> ws ! nat N = w1 \<and>
           (\<forall>i<nat N. fetch_page e (int i + 1) api_base per_page (ws ! i) =
              (Inr (raw_pages ! i), ws ! Suc i))) \<and>
        etl e api_base N per_page output_file w =
          (case to_dataframe raw_pages w1 of
             (Inl exn, w2) \<Rightarrow> (Inl exn, w2)
           | (Inr df, w2) \<Rightarrow> save_csv e df output_file w2))"
proof (intro conjI allI impI)
  have len: "length [1..N] = nat N"
    by simp
  from fetch_pages_task_runs [of "[1..N]" e api_base per_page "[]" w]
  show "\<exists>k\<le>nat N.
      task_runs (snd (fetch_pages e api_base per_page [1..N] [] w)) =
        task_runs w @ map (\<lambda>n. Fetch_page n api_base per_page) (take k [1..N])"
    unfolding len by blast
next
  fix raw_pages w1
  assume run: "fetch_pages e api_base per_page [1..N] [] w = (Inr raw_pages, w1)"
  have len: "length [1..N] = nat N"
    by simp
  show "length [1..N] = nat N"
    by (rule len)
  from fetch_pages_task_runs [of "[1..N]" e api_base per_page "[]" w] run
  show "task_runs w1 = task_runs w @ map (\<lambda>n. Fetch_page n api_base per_page) [1..N]"
    by auto
  from fetch_pages_chain [OF run] obtain ws where ws:
    "length ws = Suc (length [1..N])" "ws ! 0 = w" "ws ! length [1..N] = w1"
    "length raw_pages = length ([] :: page list) + length [1..N]"
    "\<forall>i<length [1..N]. fetch_page e ([1..N] ! i) api_base per_page (ws ! i) =
        (Inr (raw_pages ! (length ([] :: page list) + i)), ws ! Suc i)"
    by blast
  from ws(4) show "length raw_pages = nat N"
    by simp
  have "fetch_page e (int i + 1) api_base per_page (ws ! i) = (Inr (raw_pages ! i), ws ! Suc i)"
    if "i < nat N" for i
  proof -
    from that have "i < length [1..N]"
      by simp
    with ws(5) have "fetch_page e ([1..N] ! i) api_base per_page (ws ! i) =
        (Inr (raw_pages ! (length ([] :: page list) + i)), ws ! Suc i)"
      by blast
    moreover have "[1..N] ! i = int i + 1"
      using that by (rule upto_1_nth)
    ultimately show ?thesis
      by simp
  qed
  with ws(1,2,3) show "\<exists>ws. length ws = Suc (nat N) \<and> ws ! 0 = w \<and> ws ! nat N = w1 \<and>
           (\<forall>i<nat N. fetch_page e (int i + 1) api_base per_page (ws ! i) =
              (Inr (raw_pages ! i), ws ! Suc i))"
    unfolding len by blast
  show "etl e api_base N per_page output_file w =
          (case to_dataframe raw_pages w1 of
             (Inl exn, w2) \<Rightarrow> (Inl exn, w2)
           | (Inr df, w2) \<Rightarrow> save_csv e df output_file w2)"
    using run by (simp add: etl_def)
qed

lemma upto_1_2: "[1..2] = [1, 2]"
  by (simp add: upto.simps)

lemmas run_defs = fetch_page_eq failed_attempts_3 attempted_def get_request_def world0_def
  is_success_def

lemma fetch_pages_paged:
  "fetch_pages paged_env ''https://dev.to/api'' 30 [1..2] [] world0 =
     (Inr [[article1, article2], [article3]],
      \<lparr>requests = [get_request 1 ''https://dev.to/api'' 30, get_request 2 ''https://dev.to/api'' 30],
       sleeps = [],
       stdout = [Fetching_page 1, Fetching_page 2],
       files = Map.empty,
       task_runs = [Fetch_page 1 ''https://dev.to/api'' 30, Fetch_page 2 ''https://dev.to/api'' 30]\<rparr>)"
  by (simp add: run_defs paged_env_def upto_1_2)


theorem fetcher_invoked_once_per_page_witness:
  "fst (fetch_pages paged_env ''https://dev.to/api'' 30 [1..2] [] world0) =
     Inr [[article1, article2], [article3]] \<and>
   task_runs (snd (fetch_pages paged_env ''https://dev.to/api'' 30 [1..2] [] world0)) =
     [Fetch_page 1 ''https://dev.to/api'' 30, Fetch_page 2 ''https://dev.to/api'' 30] \<and>
   fst (etl paged_env ''https://dev.to/api'' 2 30 ''devto_articles.csv'' world0) = Inr () \<and>
   files (snd (etl paged_env ''https://dev.to/api'' 2 30 ''devto_articles.csv'' world0))
     ''devto_articles.csv'' = Some (to_csv paged_env table123)"
proof -
  define w1 where "w1 = snd (fetch_pages paged_env ''https://dev.to/api'' 30 [1..2] [] world0)"
  have run: "fetch_pages paged_env ''https://dev.to/api'' 30 [1..2] [] world0 =
      (Inr [[article1, article2], [article3]], w1)"
    by (simp add: w1_def fetch_pages_paged)
  note facts = conjunct2 [OF fetcher_invoked_once_per_page
    [of 2 paged_env "''https://dev.to/api''" 30 world0 "''devto_articles.csv''"],
    rule_format, OF run]
  have runs: "task_runs w1 =
      task_runs world0 @ map (\<lambda>n. Fetch_page n ''https://dev.to/api'' 30) [1..2]"
    using facts by (rule conjunct1)
  have flow: "etl paged_env ''https://dev.to/api'' 2 30 ''devto_articles.csv'' world0 =
      (case to_dataframe [[article1, article2], [article3]] w1 of
         (Inl exn, w2) \<Rightarrow> (Inl exn, w2)
       | (Inr df, w2) \<Rightarrow> save_csv paged_env df ''devto_articles.csv'' w2)"
    using facts [THEN conjunct2, THEN conjunct2, THEN conjunct2, THEN conjunct2] .
  have a: "fst (fetch_pages paged_env ''https://dev.to/api'' 30 [1..2] [] world0) =
      Inr [[article1, article2], [article3]]"
    by (simp add: fetch_pages_paged)
  from runs have b: "task_runs (snd (fetch_pages paged_env ''https://dev.to/api'' 30 [1..2] [] world0)) =
      [Fetch_page 1 ''https://dev.to/api'' 30, Fetch_page 2 ''https://dev.to/api'' 30]"
    unfolding w1_def by (simp add: upto_1_2 world0_def)
  from flow have c:
    "fst (etl paged_env ''https://dev.to/api'' 2 30 ''devto_articles.csv'' world0) = Inr ()"
    by (simp add: to_dataframe_task to_dataframe_fn_demo save_csv_eq paged_env_def)
  from flow have d:
    "files (snd (etl paged_env ''https://dev.to/api'' 2 30 ''devto_articles.csv'' world0))
       ''devto_articles.csv'' = Some (to_csv paged_env table123)"
    by (simp add: to_dataframe_task to_dataframe_fn_demo save_csv_eq paged_env_def)
  from a b c d show ?thesis
    by (intro conjI)
qed

text \<open>
  Claim C9. Whatever the page size, each attempt of a fetch sends a request whose
  \<open>per_page\<close> parameter is the configured value itself: no bound is checked, for a
  value above 30 as for any other, and a fetch sends at least one such request. Every
  request a run sends carries the page size given to the flow.
\<close>

theorem per_page_passed_through:
  "requests (snd (fetch_page_fn e page api_base per_page w)) =
     requests w @
     [\<lparr>url = api_base @ ''/articles'',
       params = [(''page'', page), (''per_page'', per_page)], timeout = 30\<rparr>] \<and>
   (\<exists>j\<le>3.
      requests (snd (fetch_page e page api_base per_page w)) =
        requests w @
        replicate (Suc j)
          \<lparr>url = api_base @ ''/articles'',
           params = [(''page'', page), (''per_page'', per_page)], timeout = 30\<rparr>) \<and>
   (\<exists>new.
      requests (snd (etl e api_base pages per_page output_file w)) = requests w @ new \<and>
      (\<forall>r\<in>set new. map_of (params r) ''per_page'' = Some per_page))"
proof (intro conjI)
  show "requests (snd (fetch_page_fn e page api_base per_page w)) =
     requests w @
     [\<lparr>url = api_base @ ''/articles'',
       params = [(''page'', page), (''per_page'', per_page)], timeout = 30\<rparr>]"
    by (simp add: fetch_page_fn_eq get_request_def)
  show "\<exists>j\<le>3.
      requests (snd (fetch_page e page api_base per_page w)) =
        requests w @
        replicate (Suc j)
          \<lparr>url = api_base @ ''/articles'',
           params = [(''page'', page), (''per_page'', per_page)], timeout = 30\<rparr>"
    using failed_attempts_le [of e "get_request page api_base per_page" "length (requests w)" 3]
      fetch_page_requests [of e page api_base per_page w]
    unfolding get_request_def by blast
  from fetch_pages_requests [of e api_base per_page "[1..pages]" "[]" w]
  obtain new where new:
    "requests (snd (fetch_pages e api_base per_page [1..pages] [] w)) = requests w @ new"
    "\<forall>r\<in>set new. \<exists>n. r = get_request n api_base per_page"
    by blast
  from new(2) have "\<forall>r\<in>set new. map_of (params r) ''per_page'' = Some per_page"
    by (auto simp: get_request_def)
  with new(1) show "\<exists>new.
      requests (snd (etl e api_base pages per_page output_file w)) = requests w @ new \<and>
      (\<forall>r\<in>set new. map_of (params r) ''per_page'' = Some per_page)"
    by (simp add: etl_requests)
qed

theorem per_page_passed_through_witness:
  "(30 :: int) < 100 \<and>
   requests (snd (fetch_page_fn paged_env 1 ''https://dev.to/api'' 100 world0)) =
     [\<lparr>url = ''https://dev.to/api/articles'',
       params = [(''page'', 1), (''per_page'', 100)], timeout = 30\<rparr>] \<and>
   requests (snd (fetch_page paged_env 1 ''https://dev.to/api'' 100 world0)) =
     [\<lparr>url = ''https://dev.to/api/articles'',
       params = [(''page'', 1), (''per_page'', 100)], timeout = 30\<rparr>]"
  using per_page_passed_through [of paged_env 1 "''https://dev.to/api''" 100 world0]
  by (simp add: run_defs paged_env_def)


subsection \<open>No record at all\<close>

lemma upto_1_1: "[1..1] = [1]"
  by (simp add: upto.simps)

lemma to_dataframe_fn_empty:
  assumes "concat raw_pages = []"
  shows "to_dataframe_fn raw_pages = Inl (KeyError selected_fields)"
proof -
  have ex: "\<exists>c\<in>set selected_fields. \<forall>r\<in>set (concat raw_pages). lacks r c"
    unfolding assms by (auto simp: selected_fields_def)
  have all: "filter (\<lambda>c. \<forall>r\<in>set (concat raw_pages). lacks r c) selected_fields = selected_fields"
    unfolding assms by simp
  show ?thesis
    by (simp only: to_dataframe_fn_eq ex if_True all)
qed

text \<open>
  Claim C10. When the fetched pages hold no record, the Transformer raises \<open>KeyError\<close>
  for all eight columns instead of returning an empty table. So a run with a page count
  of 0 (or less), and a run every page of which is empty, fails with that error, and the
  files are as they were: no file with only a header is written.
\<close>

theorem empty_input_fails:
  "(concat raw_pages = [] \<longrightarrow> to_dataframe_fn raw_pages = Inl (KeyError selected_fields)) \<and>
   (pages \<le> 0 \<longrightarrow>
      fst (etl e api_base pages per_page output_file w) = Inl (KeyError selected_fields) \<and>
      files (snd (etl e api_base pages per_page output_file w)) = files w \<and>
      requests (snd (etl e api_base pages per_page output_file w)) = requests w) \<and>
   (fetch_pages e api_base per_page [1..pages] [] w = (Inr raw_pages, w1) \<and>
    concat raw_pages = [] \<longrightarrow>
      fst (etl e api_base pages per_page output_file w) = Inl (KeyError selected_fields) \<and>
      files (snd (etl e api_base pages per_page output_file w)) = files w)"
proof (intro conjI impI)
  assume "concat raw_pages = []"
  then show "to_dataframe_fn raw_pages = Inl (KeyError selected_fields)"
    by (rule to_dataframe_fn_empty)
next
  assume "pages \<le> 0"
  then have run: "fetch_pages e api_base per_page [1..pages] [] w = (Inr [], w)"
    by simp
  have fails: "to_dataframe_fn [] = Inl (KeyError selected_fields)"
    by (simp add: to_dataframe_fn_empty)
  show "fst (etl e api_base pages per_page output_file w) = Inl (KeyError selected_fields)"
    "files (snd (etl e api_base pages per_page output_file w)) = files w"
    "requests (snd (etl e api_base pages per_page output_file w)) = requests w"
    by (simp_all add: etl_after_fetch [OF run] fails)
next
  assume "fetch_pages e api_base per_page [1..pages] [] w = (Inr raw_pages, w1) \<and>
    concat raw_pages = []"
  then have run: "fetch_pages e api_base per_page [1..pages] [] w = (Inr raw_pages, w1)"
    and fails: "to_dataframe_fn raw_pages = Inl (KeyError selected_fields)"
    by (simp_all add: to_dataframe_fn_empty)
  have "files w1 = files w"
    using fetch_pages_files [of e api_base per_page "[1..pages]" "[]" w] run by simp
  then show "fst (etl e api_base pages per_page output_file w) = Inl (KeyError selected_fields)"
    "files (snd (etl e api_base pages per_page output_file w)) = files w"
    by (simp_all add: etl_after_fetch [OF run] fails)
qed

lemma fetch_pages_empty:
  "fetch_pages empty_env ''https://dev.to/api'' 30 [1..2] [] world0 =
     (Inr [[], []],
      \<lparr>requests = [get_request 1 ''https://dev.to/api'' 30, get_request 2 ''https://dev.to/api'' 30],
       sleeps = [],
       stdout = [Fetching_page 1, Fetching_page 2],
       files = Map.empty,
       task_runs = [Fetch_page 1 ''https://dev.to/api'' 30, Fetch_page 2 ''https://dev.to/api'' 30]\<rparr>)"
  by (simp add: run_defs empty_env_def upto_1_2)

theorem empty_input_fails_witness:
  "concat [[], [] :: page] = [] \<and>
   to_dataframe_fn [[], []] = Inl (KeyError selected_fields) \<and>
   (0 :: int) \<le> 0 \<and>
   fst (etl paged_env ''https://dev.to/api'' 0 30 ''devto_articles.csv'' world0) =
     Inl (KeyError selected_fields) \<and>
   files (snd (etl paged_env ''https://dev.to/api'' 0 30 ''devto_articles.csv'' world0))
     ''devto_articles.csv'' = None \<and>
   fst (fetch_pages empty_env ''https://dev.to/api'' 30 [1..2] [] world0) = Inr [[], []] \<and>
   fst (etl empty_env ''https://dev.to/api'' 2 30 ''devto_articles.csv'' world0) =
     Inl (KeyError selected_fields) \<and>
   files (snd (etl empty_env ''https://dev.to/api'' 2 30 ''devto_articles.csv'' world0))
     ''devto_articles.csv'' = None"
  using empty_input_fails [of "[[], []]" 0 paged_env "''https://dev.to/api''" 30
      "''devto_articles.csv''" world0 world0]
    empty_input_fails [of "[[], []]" 2 empty_env "''https://dev.to/api''" 30
      "''devto_articles.csv''" world0
      "\<lparr>requests = [get_request 1 ''https://dev.to/api'' 30, get_request 2 ''https://dev.to/api'' 30],
       sleeps = [],
       stdout = [Fetching_page 1, Fetching_page 2],
       files = Map.empty,
       task_runs = [Fetch_page 1 ''https://dev.to/api'' 30, Fetch_page 2 ''https://dev.to/api'' 30]\<rparr>"]
  by (simp add: fetch_pages_empty) (simp add: world0_def)

subsection \<open>A record that lacks a field\<close>

lemma row_of_untitled:
  "row_of untitled = [Some (PInt 4), None, Some (PStr ''2024-01-04''),
          Some (PStr ''https://dev.to/4''), Some (PInt 2), Some (PInt 1),
          Some (PList []), Some (PStr ''dee'')]"
  by (simp add: row_of_def eval_defs untitled_def)

lemma lacks_untitled: "lacks untitled ''title''"
  by (simp add: lacks_iff eval_defs untitled_def)

lemma to_dataframe_fn_mixed: "to_dataframe_fn [[article1, untitled]] = Inr table_untitled"
proof -
  have "\<not> (\<exists>c\<in>set selected_fields. \<forall>r\<in>set (concat [[article1, untitled]]). lacks r c)"
    using not_lacks_article1 by auto
  then show ?thesis
    by (simp only: to_dataframe_fn_eq if_False)
       (simp add: row_of_article1 row_of_untitled table_untitled_def)
qed

lemma fetch_pages_mixed:
  "fetch_pages mixed_env ''https://dev.to/api'' 30 [1..1] [] world0 =
     (Inr [[article1, untitled]],
      \<lparr>requests = [get_request 1 ''https://dev.to/api'' 30],
       sleeps = [],
       stdout = [Fetching_page 1],
       files = Map.empty,
       task_runs = [Fetch_page 1 ''https://dev.to/api'' 30]\<rparr>)"
  by (simp add: run_defs mixed_env_def upto_1_1)

text \<open>
  Claim C1 says that a record lacking a required field fails the whole run. It does not:
  the server \<open>mixed_env\<close> returns \<open>article1\<close> and \<open>untitled\<close>, which has no title; the run
  succeeds and writes the table \<open>table_untitled\<close>, where the title of the second row is an
  empty cell.
\<close>

theorem missing_field_tolerated:
  "untitled \<in> set (concat [[article1, untitled]]) \<and>
   field_value untitled [''title''] = None \<and>
   lacks untitled ''title'' \<and>
   fst (fetch_pages mixed_env ''https://dev.to/api'' 30 [1..1] [] world0) =
     Inr [[article1, untitled]] \<and>
   to_dataframe_fn [[article1, untitled]] = Inr table_untitled \<and>
   fst (etl mixed_env ''https://dev.to/api'' 1 30 ''devto_articles.csv'' world0) = Inr () \<and>
   files (snd (etl mixed_env ''https://dev.to/api'' 1 30 ''devto_articles.csv'' world0))
     ''devto_articles.csv'' = Some (to_csv mixed_env table_untitled)"
proof -
  have a: "untitled \<in> set (concat [[article1, untitled]])"
    by simp
  have b: "field_value untitled [''title''] = None"
    by (simp add: untitled_def)
  have c: "fst (fetch_pages mixed_env ''https://dev.to/api'' 30 [1..1] [] world0) =
      Inr [[article1, untitled]]"
    by (simp only: fetch_pages_mixed fst_conv)
  have w: "can_write mixed_env ''devto_articles.csv''"
    by (simp add: mixed_env_def)
  have d: "fst (etl mixed_env ''https://dev.to/api'' 1 30 ''devto_articles.csv'' world0) = Inr ()"
    by (simp add: etl_after_fetch [OF fetch_pages_mixed] to_dataframe_fn_mixed save_csv_eq w)
  have e: "files (snd (etl mixed_env ''https://dev.to/api'' 1 30 ''devto_articles.csv'' world0))
      ''devto_articles.csv'' = Some (to_csv mixed_env table_untitled)"
    by (simp add: etl_after_fetch [OF fetch_pages_mixed] to_dataframe_fn_mixed save_csv_eq w)
  from a b lacks_untitled c to_dataframe_fn_mixed d e show ?thesis
    by (intro conjI)
qed

lemma to_dataframe_fn_raises_iff:
  "(\<exists>exn. to_dataframe_fn raw_pages = Inl exn) \<longleftrightarrow>
   (\<exists>c\<in>set selected_fields. \<forall>r\<in>set (concat raw_pages). lacks r c)"
  by (simp only: to_dataframe_fn_eq split: if_split) blast


text \<open>
  Claim C1, amended. If one of the eight required columns is lacked by every fetched
  record, the whole run fails with the \<open>KeyError\<close> (\<open>MissingFieldError\<close>) that names this
  column, and the files are as they were. The Transformer raises exactly then: a column
  that only some records lack gives them an empty cell.
\<close>

theorem missing_column_fails_run:
  "(fetch_pages e api_base per_page [1..pages] [] w = (Inr raw_pages, w1) \<and>
    c \<in> set selected_fields \<and> (\<forall>r\<in>set (concat raw_pages). lacks r c) \<longrightarrow>
      (\<exists>missing. fst (etl e api_base pages per_page output_file w) = Inl (KeyError missing) \<and>
         c \<in> set missing) \<and>
      files (snd (etl e api_base pages per_page output_file w)) = files w) \<and>
   ((\<exists>exn. to_dataframe_fn raw_pages = Inl exn) \<longleftrightarrow>
    (\<exists>c\<in>set selected_fields. \<forall>r\<in>set (concat raw_pages). lacks r c))"
proof (intro conjI impI)
  assume "fetch_pages e api_base per_page [1..pages] [] w = (Inr raw_pages, w1) \<and>
    c \<in> set selected_fields \<and> (\<forall>r\<in>set (concat raw_pages). lacks r c)"
  then have run: "fetch_pages e api_base per_page [1..pages] [] w = (Inr raw_pages, w1)"
    and c: "c \<in> set selected_fields" "\<forall>r\<in>set (concat raw_pages). lacks r c"
    by blast+
  let ?missing = "filter (\<lambda>c. \<forall>r\<in>set (concat raw_pages). lacks r c) selected_fields"
  from c have ex: "\<exists>c\<in>set selected_fields. \<forall>r\<in>set (concat raw_pages). lacks r c"
    by blast
  have fails: "to_dataframe_fn raw_pages = Inl (KeyError ?missing)"
    by (simp only: to_dataframe_fn_eq ex if_True)
  have "files w1 = files w"
    using fetch_pages_files [of e api_base per_page "[1..pages]" "[]" w] run by simp
  then show "files (snd (etl e api_base pages per_page output_file w)) = files w"
    by (simp add: etl_after_fetch [OF run] fails)
  have "fst (etl e api_base pages per_page output_file w) = Inl (KeyError ?missing)"
    by (simp add: etl_after_fetch [OF run] fails)
  moreover from c have "c \<in> set ?missing"
    by simp
  ultimately show "\<exists>missing. fst (etl e api_base pages per_page output_file w) =
      Inl (KeyError missing) \<and> c \<in> set missing"
    by blast
next
  show "(\<exists>exn. to_dataframe_fn raw_pages = Inl exn) \<longleftrightarrow>
    (\<exists>c\<in>set selected_fields. \<forall>r\<in>set (concat raw_pages). lacks r c)"
    by (rule to_dataframe_fn_raises_iff)
qed

lemma fetch_pages_untitled:
  "fetch_pages untitled_env ''https://dev.to/api'' 30 [1..1] [] world0 =
     (Inr [[untitled]],
      \<lparr>requests = [get_request 1 ''https://dev.to/api'' 30],
       sleeps = [],
       stdout = [Fetching_page 1],
       files = Map.empty,
       task_runs = [Fetch_page 1 ''https://dev.to/api'' 30]\<rparr>)"
  by (simp add: run_defs untitled_env_def upto_1_1)

lemma to_dataframe_fn_untitled: "to_dataframe_fn [[untitled]] = Inl (KeyError [''title''])"
proof -
  have ex: "\<exists>c\<in>set selected_fields. \<forall>r\<in>set (concat [[untitled]]). lacks r c"
    using lacks_untitled by (auto simp: selected_fields_def)
  have "filter (\<lambda>c. \<forall>r\<in>set (concat [[untitled]]). lacks r c) selected_fields = [''title'']"
    by (simp add: lacks_iff eval_defs untitled_def)
  with ex show ?thesis
    by (simp only: to_dataframe_fn_eq if_True)
qed

theorem missing_column_fails_run_witness:
  "fst (fetch_pages untitled_env ''https://dev.to/api'' 30 [1..1] [] world0) = Inr [[untitled]] \<and>
   ''title'' \<in> set selected_fields \<and>
   lacks untitled ''title'' \<and>
   fst (etl untitled_env ''https://dev.to/api'' 1 30 ''devto_articles.csv'' world0) =
     Inl (KeyError [''title'']) \<and>
   files (snd (etl untitled_env ''https://dev.to/api'' 1 30 ''devto_articles.csv'' world0))
     ''devto_articles.csv'' = None"
proof -
  have a: "fst (fetch_pages untitled_env ''https://dev.to/api'' 30 [1..1] [] world0) =
      Inr [[untitled]]"
    by (simp only: fetch_pages_untitled fst_conv)
  have b: "''title'' \<in> set selected_fields"
    by (simp add: selected_fields_def)
  have c: "\<forall>r\<in>set (concat [[untitled]]). lacks r ''title''"
    by (simp add: lacks_untitled)
  note inst = missing_column_fails_run [of untitled_env "''https://dev.to/api''" 30 1 world0
      "[[untitled]]" _ "''title''" "''devto_articles.csv''", THEN conjunct1, rule_format,
      OF conjI [OF fetch_pages_untitled conjI [OF b c]]]
  from inst have "files (snd (etl untitled_env ''https://dev.to/api'' 1 30 ''devto_articles.csv''
      world0)) = files world0"
    by (rule conjunct2)
  then have d: "files (snd (etl untitled_env ''https://dev.to/api'' 1 30 ''devto_articles.csv''
      world0)) ''devto_articles.csv'' = None"
    by (simp add: world0_def)
  have e: "fst (etl untitled_env ''https://dev.to/api'' 1 30 ''devto_articles.csv'' world0) =
      Inl (KeyError [''title''])"
    by (simp add: etl_after_fetch [OF fetch_pages_untitled] to_dataframe_fn_untitled)
  from a b lacks_untitled e d show ?thesis
    by (intro conjI)
qed

subsection \<open>Which exceptions are retried\<close>








section \<open>The file read back\<close>

subsection \<open>The writer and the reader are inverse\<close>


















lemma enumerate_eq_Nil [simp]: "enumerate n xs = [] \<longleftrightarrow> xs = []"
  by (cases xs) simp_all


subsection \<open>The file of a table\<close>



lemma length_row_of [simp]: "length (row_of r) = 8"
  by (simp add: row_of_def selected_fields_def)










end
